theory Spec2Isabelle
  imports Main
begin

section \<open>The ChromaDB diagnostic script \<^verbatim>\<open>debug_chromadb.py\<close>\<close>

text \<open>
  The script is one function, \<^verbatim>\<open>debug_chromadb()\<close>, that calls a remote service
  through a client library and prints what it finds. The embedding makes the two
  effects explicit: a run produces the list of its events in the order they happen (a
  call to the client library, or a line printed to standard output) and the way the
  function ends (it returns, or it calls \<^verbatim>\<open>sys.exit\<close>). The answers of the client
  library are the input of a run.
\<close>

subsection \<open>Values\<close>

text \<open>
  A Python \<^verbatim>\<open>str\<close> is a sequence of Unicode code points and \<^verbatim>\<open>len\<close> counts code
  points, so a string is a list of code points (natural numbers). \<open>py_lit\<close> embeds an
  ASCII literal of the source.
\<close>

type_synonym pychar = nat
type_synonym pystr = "pychar list"

definition py_lit :: "string \<Rightarrow> pystr" where
  "py_lit s = map of_char s"

text \<open>
  A call to the client library returns a value or raises. What it raises is an instance
  of Python's \<^verbatim>\<open>Exception\<close> (both handlers of the script are \<^verbatim>\<open>except Exception as e\<close>),
  given by its message \<^verbatim>\<open>str(e)\<close>, which is all the script reads of it.
\<close>

type_synonym lib_error = pystr

text \<open>
  The exceptions a run can meet: one raised inside a call to the client library, and
  the ones the interpreter raises in the body of the script itself: \<^verbatim>\<open>None[:3]\<close> and
  \<^verbatim>\<open>len(None)\<close> are a \<^verbatim>\<open>TypeError\<close>, a list index out of range is an \<^verbatim>\<open>IndexError\<close>.
\<close>

datatype exn =
    LibraryError lib_error
  | NoneNotSubscriptable
  | NoneHasNoLen
  | IndexError

text \<open>
  The result of \<^verbatim>\<open>collection.get(...)\<close> is a dictionary; the script reads its keys
  \<^verbatim>\<open>'documents'\<close> and \<^verbatim>\<open>'metadatas'\<close>. Either value is a list or \<^verbatim>\<open>None\<close>, and a
  record stored without a text has \<^verbatim>\<open>None\<close> in place of its document. A metadata
  value is only ever printed, so its type \<open>'m\<close> is left open.
\<close>

record 'm sample =
  documents :: "pystr option list option"
  metadatas :: "'m list option"

text \<open>
  A collection object: the three attributes the script prints, and the answers of its
  two methods, \<^verbatim>\<open>count()\<close> and \<^verbatim>\<open>get(limit=3, include=[...])\<close> (\<open>Inl\<close>: the call
  raises). Every element of the list of collections carries its own answers.
\<close>

record 'm collection =
  c_name :: pystr
  c_id :: pystr
  c_metadata :: 'm
  c_count :: "lib_error + int"
  c_get :: "lib_error + 'm sample"

text \<open>The client object: the answers of \<^verbatim>\<open>heartbeat()\<close> and \<^verbatim>\<open>list_collections()\<close>.\<close>

record 'm client =
  heartbeat :: "lib_error + int"
  list_collections :: "lib_error + 'm collection list"

text \<open>
  The input of a run is the answer of the constructor
  \<^verbatim>\<open>chromadb.HttpClient(host="localhost", port=8000)\<close>: it raises, or it returns a client.
\<close>

type_synonym 'm service = "lib_error + 'm client"

subsection \<open>Events\<close>

text \<open>
  The calls to the client library, with their arguments. \<open>Count k\<close> and \<open>Get k\<close> are the
  calls on the collection at position \<open>k\<close> of the list that \<^verbatim>\<open>list_collections()\<close>
  returned; the position only labels the event, the script does not compute it.
\<close>

datatype call =
    HttpClient string nat
  | Heartbeat
  | ListCollections
  | Count nat
  | Get nat int "string list"

text \<open>
  The lines of output, one constructor for each \<^verbatim>\<open>print\<close> of the source, with the values
  its f-string interpolates:
  \<^item> \<open>Banner\<close>: \<^verbatim>\<open>=== ChromaDB Debug Info ===\<close>
  \<^item> \<open>ConnOK h\<close>: \<^verbatim>\<open>[OK] ChromaDB connection successful: {heartbeat}\<close>
  \<^item> \<open>Found n\<close>: \<^verbatim>\<open>[INFO] Found {len(collections)} collections:\<close>
  \<^item> \<open>CollName s\<close>: \<^verbatim>\<open>Collection: {collection.name}\<close>
  \<^item> \<open>CollId s\<close>: \<^verbatim>\<open>ID: {collection.id}\<close>
  \<^item> \<open>CollMeta m\<close>: \<^verbatim>\<open>Metadata: {collection.metadata}\<close>
  \<^item> \<open>DocCount n\<close>: \<^verbatim>\<open>Document count: {count}\<close>
  \<^item> \<open>SampleHeader\<close>: \<^verbatim>\<open>Sample documents:\<close>
  \<^item> \<open>Preview i p\<close>: \<^verbatim>\<open>[{i}]: {preview}\<close>
  \<^item> \<open>PreviewMeta m\<close>: \<^verbatim>\<open>Metadata: {metadata}\<close> (indented under a preview)
  \<^item> \<open>DetailError e\<close>: \<^verbatim>\<open>[ERROR] Error getting collection details: {e}\<close>
  \<^item> \<open>ConnFailed e\<close>: \<^verbatim>\<open>[ERROR] ChromaDB connection failed: {e}\<close>
\<close>

datatype 'm line =
    Banner
  | ConnOK int
  | Found nat
  | CollName pystr
  | CollId pystr
  | CollMeta 'm
  | DocCount int
  | SampleHeader
  | Preview nat pystr
  | PreviewMeta 'm
  | DetailError exn
  | ConnFailed exn

datatype 'm event = Call call | Print "'m line"

text \<open>How \<^verbatim>\<open>debug_chromadb()\<close> ends, and the exit status of the process then.\<close>

datatype outcome = Returned | SysExit int

fun exit_status :: "outcome \<Rightarrow> int" where
  "exit_status Returned = 0"
| "exit_status (SysExit n) = n"

subsection \<open>The script\<close>

text \<open>
  \<^verbatim>\<open>preview = doc[:100] + "..." if len(doc) > 100 else doc\<close>: the conditional expression
  binds weaker than \<^verbatim>\<open>+\<close>.
\<close>

definition preview :: "pystr \<Rightarrow> pystr" where
  "preview doc = (if length doc > 100 then take 100 doc @ py_lit ''...'' else doc)"

text \<open>\<^verbatim>\<open>xs[i]\<close> for \<open>i \<ge> 0\<close>: an index out of range raises \<^verbatim>\<open>IndexError\<close>.\<close>

definition py_index :: "'a list \<Rightarrow> nat \<Rightarrow> exn + 'a" where
  "py_index xs i = (if i < length xs then Inr (xs ! i) else Inl IndexError)"

text \<open>
  The two lines about metadata under a preview:
  \<^verbatim>\<open>
  if sample['metadatas'] and i < len(sample['metadatas']):
      metadata = sample['metadatas'][i]
      print(f"         Metadata: {metadata}")
  \<close>
  \<^verbatim>\<open>None\<close> and the empty list are both false.
\<close>

definition preview_metadata :: "'m sample \<Rightarrow> nat \<Rightarrow> 'm event list \<times> (exn + unit)" where
  "preview_metadata s i =
     (case metadatas s of
        None \<Rightarrow> ([], Inr ())
      | Some ms \<Rightarrow>
          if ms \<noteq> [] \<and> i < length ms then
            (case py_index ms i of
               Inl e \<Rightarrow> ([], Inl e)
             | Inr metadata \<Rightarrow> ([Print (PreviewMeta metadata)], Inr ()))
          else ([], Inr ()))"

text \<open>
  The loop \<^verbatim>\<open>for i, doc in enumerate(sample['documents'][:3])\<close>, on the pairs that
  \<^verbatim>\<open>enumerate\<close> yields. The condition \<^verbatim>\<open>len(doc) > 100\<close> is evaluated first and raises
  on a document that is \<^verbatim>\<open>None\<close>; an exception ends the loop.
\<close>

fun sample_loop :: "'m sample \<Rightarrow> (nat \<times> pystr option) list \<Rightarrow> 'm event list \<times> (exn + unit)" where
  "sample_loop s [] = ([], Inr ())"
| "sample_loop s ((i, None) # rest) = ([], Inl NoneHasNoLen)"
| "sample_loop s ((i, Some doc) # rest) =
     (case preview_metadata s i of
        (evs, Inl e) \<Rightarrow> (Print (Preview i (preview doc)) # evs, Inl e)
      | (evs, Inr _) \<Rightarrow>
          (case sample_loop s rest of
             (evs', r) \<Rightarrow> (Print (Preview i (preview doc)) # evs @ evs', r)))"

text \<open>
  The body of the inner \<^verbatim>\<open>try\<close>, for the collection at position \<open>k\<close>:
  \<^verbatim>\<open>
  count = collection.count()
  print(f"  Document count: {count}")
  if count > 0:
      sample = collection.get(limit=3, include=["metadatas", "documents"])
      print(f"  Sample documents:")
      for i, doc in enumerate(sample['documents'][:3]):
          ...
  \<close>
\<close>

definition collection_details :: "nat \<Rightarrow> 'm collection \<Rightarrow> 'm event list \<times> (exn + unit)" where
  "collection_details k c =
     (case c_count c of
        Inl e \<Rightarrow> ([Call (Count k)], Inl (LibraryError e))
      | Inr count \<Rightarrow>
          if count > 0 then
            (case c_get c of
               Inl e \<Rightarrow>
                 ([Call (Count k), Print (DocCount count),
                   Call (Get k 3 [''metadatas'', ''documents''])], Inl (LibraryError e))
             | Inr s \<Rightarrow>
                 (case documents s of
                    None \<Rightarrow>
                      ([Call (Count k), Print (DocCount count),
                        Call (Get k 3 [''metadatas'', ''documents'']), Print SampleHeader],
                       Inl NoneNotSubscriptable)
                  | Some docs \<Rightarrow>
                      (case sample_loop s (enumerate 0 (take 3 docs)) of
                         (evs, r) \<Rightarrow>
                           ([Call (Count k), Print (DocCount count),
                             Call (Get k 3 [''metadatas'', ''documents'']), Print SampleHeader]
                            @ evs, r))))
          else ([Call (Count k), Print (DocCount count)], Inr ()))"

text \<open>
  The body of \<^verbatim>\<open>for collection in collections\<close>: three lines about the collection,
  then the inner \<^verbatim>\<open>try\<close> with its handler, which prints the exception and goes on.
\<close>

definition collection_block :: "nat \<Rightarrow> 'm collection \<Rightarrow> 'm event list" where
  "collection_block k c =
     [Print (CollName (c_name c)), Print (CollId (c_id c)), Print (CollMeta (c_metadata c))]
     @ (case collection_details k c of
          (evs, Inl e) \<Rightarrow> evs @ [Print (DetailError e)]
        | (evs, Inr _) \<Rightarrow> evs)"

text \<open>The loop over the collections, from position \<open>k\<close> on.\<close>

fun for_collections :: "nat \<Rightarrow> 'm collection list \<Rightarrow> 'm event list" where
  "for_collections k [] = []"
| "for_collections k (c # cs) = collection_block k c @ for_collections (Suc k) cs"

text \<open>
  The body of the outer \<^verbatim>\<open>try\<close>:
  \<^verbatim>\<open>
  client = chromadb.HttpClient(host="localhost", port=8000)
  heartbeat = client.heartbeat()
  print(f"[OK] ChromaDB connection successful: {heartbeat}")
  collections = client.list_collections()
  print(f"\n[INFO] Found {len(collections)} collections:")
  for collection in collections:
      ...
  \<close>
\<close>

definition try_body :: "'m service \<Rightarrow> 'm event list \<times> (exn + unit)" where
  "try_body service =
     (case service of
        Inl e \<Rightarrow> ([Call (HttpClient ''localhost'' 8000)], Inl (LibraryError e))
      | Inr client \<Rightarrow>
          (case heartbeat client of
             Inl e \<Rightarrow>
               ([Call (HttpClient ''localhost'' 8000), Call Heartbeat], Inl (LibraryError e))
           | Inr hb \<Rightarrow>
               (case list_collections client of
                  Inl e \<Rightarrow>
                    ([Call (HttpClient ''localhost'' 8000), Call Heartbeat, Print (ConnOK hb),
                      Call ListCollections], Inl (LibraryError e))
                | Inr collections \<Rightarrow>
                    ([Call (HttpClient ''localhost'' 8000), Call Heartbeat, Print (ConnOK hb),
                      Call ListCollections, Print (Found (length collections))]
                     @ for_collections 0 collections, Inr ()))))"

text \<open>
  \<^verbatim>\<open>debug_chromadb()\<close>: the banner, the outer \<^verbatim>\<open>try\<close>, and its handler, which prints
  the exception and calls \<^verbatim>\<open>sys.exit(1)\<close>.
\<close>

definition debug_chromadb :: "'m service \<Rightarrow> 'm event list \<times> outcome" where
  "debug_chromadb service =
     (case try_body service of
        (evs, Inl e) \<Rightarrow> (Print Banner # evs @ [Print (ConnFailed e)], SysExit 1)
      | (evs, Inr _) \<Rightarrow> (Print Banner # evs, Returned))"

subsection \<open>Reading a run\<close>

definition events :: "'m event list \<times> outcome \<Rightarrow> 'm event list" where
  "events run = fst run"

definition status :: "'m event list \<times> outcome \<Rightarrow> int" where
  "status run = exit_status (snd run)"

fun calls :: "'m event list \<Rightarrow> call list" where
  "calls [] = []"
| "calls (Call c # evs) = c # calls evs"
| "calls (Print l # evs) = calls evs"

fun prints :: "'m event list \<Rightarrow> 'm line list" where
  "prints [] = []"
| "prints (Call c # evs) = prints evs"
| "prints (Print l # evs) = l # prints evs"

text \<open>The previews printed, with their indices, and the metadata printed under them.\<close>

fun previews :: "'m event list \<Rightarrow> (nat \<times> pystr) list" where
  "previews [] = []"
| "previews (Print (Preview i p) # evs) = (i, p) # previews evs"
| "previews (ev # evs) = previews evs"

text \<open>The lines that open a collection's block, and the line that counts the collections.\<close>

fun is_block_line :: "'m line \<Rightarrow> bool" where
  "is_block_line (CollName s) = True"
| "is_block_line (CollId s) = True"
| "is_block_line (CollMeta m) = True"
| "is_block_line l = False"

fun is_found :: "'m line \<Rightarrow> bool" where
  "is_found (Found n) = True"
| "is_found l = False"

text \<open>The calls that construct a client, and the \<^verbatim>\<open>get\<close> calls on the collection at \<open>k\<close>.\<close>

fun is_HttpClient :: "call \<Rightarrow> bool" where
  "is_HttpClient (HttpClient host port) = True"
| "is_HttpClient c = False"

fun is_Get :: "nat \<Rightarrow> call \<Rightarrow> bool" where
  "is_Get k (Get j l inc) = (j = k)"
| "is_Get k c = False"

subsection \<open>The script as a process\<close>

text \<open>
  A statement of a Python function can reach the globals of the interpreter at any
  point: here the module \<^verbatim>\<open>sys\<close>, with the command line \<^verbatim>\<open>sys.argv\<close>, and the
  module \<^verbatim>\<open>chromadb\<close>, whose constructor answers for the service. The second embedding
  keeps this state in scope of every statement: a piece of script is a function from
  the state of the process to the events it produces and either a value or what it
  raises. \<^verbatim>\<open>sys.exit(n)\<close> raises \<^verbatim>\<open>SystemExit\<close>, which \<^verbatim>\<open>except Exception\<close> does not
  catch.
\<close>

datatype raised = Exception exn | SystemExit int

record 'm process =
  sys_argv :: "pystr list"
  chromadb :: "'m service"

type_synonym ('m, 'a) script = "'m process \<Rightarrow> 'm event list \<times> (raised + 'a)"

text \<open>Sequencing: what is raised ends the sequence; the events accumulate.\<close>

definition pure_s :: "'a \<Rightarrow> ('m, 'a) script" where
  "pure_s x = (\<lambda>p. ([], Inr x))"

definition bind_s :: "('m, 'a) script \<Rightarrow> ('a \<Rightarrow> ('m, 'b) script) \<Rightarrow> ('m, 'b) script" where
  "bind_s m f =
     (\<lambda>p. case m p of
            (evs, Inl r) \<Rightarrow> (evs, Inl r)
          | (evs, Inr x) \<Rightarrow> (case f x p of (evs', r) \<Rightarrow> (evs @ evs', r)))"

definition then_s :: "('m, 'a) script \<Rightarrow> ('m, 'b) script \<Rightarrow> ('m, 'b) script" where
  "then_s m n = bind_s m (\<lambda>x. n)"

text \<open>
  The statements: \<^verbatim>\<open>print\<close>, \<^verbatim>\<open>raise\<close>, \<^verbatim>\<open>sys.exit\<close>, reading \<^verbatim>\<open>sys.argv\<close>, a call on
  an object of the client library (its answer is carried by the object), the constructor
  \<^verbatim>\<open>chromadb.HttpClient\<close> (its answer is in the state of the process), and
  \<^verbatim>\<open>try: ... except Exception as e: ...\<close>.
\<close>

definition print_s :: "'m line \<Rightarrow> ('m, unit) script" where
  "print_s l = (\<lambda>p. ([Print l], Inr ()))"

definition raise_s :: "exn \<Rightarrow> ('m, 'a) script" where
  "raise_s e = (\<lambda>p. ([], Inl (Exception e)))"

definition sys_exit :: "int \<Rightarrow> ('m, 'a) script" where
  "sys_exit n = (\<lambda>p. ([], Inl (SystemExit n)))"

definition read_argv :: "('m, pystr list) script" where
  "read_argv = (\<lambda>p. ([], Inr (sys_argv p)))"

definition call_s :: "call \<Rightarrow> lib_error + 'a \<Rightarrow> ('m, 'a) script" where
  "call_s c answer =
     (\<lambda>p. case answer of
            Inl e \<Rightarrow> ([Call c], Inl (Exception (LibraryError e)))
          | Inr v \<Rightarrow> ([Call c], Inr v))"

definition http_client :: "string \<Rightarrow> nat \<Rightarrow> ('m, 'm client) script" where
  "http_client host port = (\<lambda>p. call_s (HttpClient host port) (chromadb p) p)"

definition try_except :: "('m, 'a) script \<Rightarrow> (exn \<Rightarrow> ('m, 'a) script) \<Rightarrow> ('m, 'a) script" where
  "try_except m handler =
     (\<lambda>p. case m p of
            (evs, Inr x) \<Rightarrow> (evs, Inr x)
          | (evs, Inl r) \<Rightarrow>
              (case r of
                 Exception e \<Rightarrow> (case handler e p of (evs', r') \<Rightarrow> (evs @ evs', r'))
               | SystemExit n \<Rightarrow> (evs, Inl (SystemExit n))))"

definition index_s :: "'a list \<Rightarrow> nat \<Rightarrow> ('m, 'a) script" where
  "index_s xs i = (case py_index xs i of Inl e \<Rightarrow> raise_s e | Inr x \<Rightarrow> pure_s x)"

text \<open>The script, statement by statement, in the order of the source.\<close>

definition preview_metadata_s :: "'m sample \<Rightarrow> nat \<Rightarrow> ('m, unit) script" where
  "preview_metadata_s s i =
     (case metadatas s of
        None \<Rightarrow> pure_s ()
      | Some ms \<Rightarrow>
          if ms \<noteq> [] \<and> i < length ms then
            bind_s (index_s ms i) (\<lambda>metadata. print_s (PreviewMeta metadata))
          else pure_s ())"

fun sample_loop_s :: "'m sample \<Rightarrow> (nat \<times> pystr option) list \<Rightarrow> ('m, unit) script" where
  "sample_loop_s s [] = pure_s ()"
| "sample_loop_s s ((i, None) # rest) = raise_s NoneHasNoLen"
| "sample_loop_s s ((i, Some doc) # rest) =
     then_s (print_s (Preview i (preview doc)))
       (then_s (preview_metadata_s s i) (sample_loop_s s rest))"

definition collection_details_s :: "nat \<Rightarrow> 'm collection \<Rightarrow> ('m, unit) script" where
  "collection_details_s k c =
     bind_s (call_s (Count k) (c_count c)) (\<lambda>count.
     then_s (print_s (DocCount count))
       (if count > 0 then
          bind_s (call_s (Get k 3 [''metadatas'', ''documents'']) (c_get c)) (\<lambda>s.
          then_s (print_s SampleHeader)
            (case documents s of
               None \<Rightarrow> raise_s NoneNotSubscriptable
             | Some docs \<Rightarrow> sample_loop_s s (enumerate 0 (take 3 docs))))
        else pure_s ()))"

definition collection_block_s :: "nat \<Rightarrow> 'm collection \<Rightarrow> ('m, unit) script" where
  "collection_block_s k c =
     then_s (print_s (CollName (c_name c)))
    (then_s (print_s (CollId (c_id c)))
    (then_s (print_s (CollMeta (c_metadata c)))
    (try_except (collection_details_s k c) (\<lambda>e. print_s (DetailError e)))))"

fun for_collections_s :: "nat \<Rightarrow> 'm collection list \<Rightarrow> ('m, unit) script" where
  "for_collections_s k [] = pure_s ()"
| "for_collections_s k (c # cs) = then_s (collection_block_s k c) (for_collections_s (Suc k) cs)"

definition try_body_s :: "('m, unit) script" where
  "try_body_s =
     bind_s (http_client ''localhost'' 8000) (\<lambda>client.
     bind_s (call_s Heartbeat (heartbeat client)) (\<lambda>hb.
     then_s (print_s (ConnOK hb))
    (bind_s (call_s ListCollections (list_collections client)) (\<lambda>collections.
     then_s (print_s (Found (length collections)))
       (for_collections_s 0 collections)))))"

definition debug_chromadb_s :: "('m, unit) script" where
  "debug_chromadb_s =
     then_s (print_s Banner)
       (try_except try_body_s (\<lambda>e. then_s (print_s (ConnFailed e)) (sys_exit 1)))"

text \<open>
  The process: \<^verbatim>\<open>if __name__ == "__main__": debug_chromadb()\<close>. It exits with status 0
  when the call returns, with the status of \<^verbatim>\<open>sys.exit\<close>, or with status 1 after the
  traceback of an exception nothing caught.
\<close>

definition process_main :: "('m, unit) script" where
  "process_main = debug_chromadb_s"

fun process_status :: "raised + unit \<Rightarrow> int" where
  "process_status (Inr u) = 0"
| "process_status (Inl (SystemExit n)) = n"
| "process_status (Inl (Exception e)) = 1"

text \<open>
  A piece of script reads no arguments when two states of the process that agree on
  the service give the same run, whatever their command lines.
\<close>

definition reads_no_argv :: "('m, 'a) script \<Rightarrow> bool" where
  "reads_no_argv m \<longleftrightarrow> (\<forall>p p'. chromadb p = chromadb p' \<longrightarrow> m p = m p')"

text \<open>An exception of the first embedding, as what the second one raises.\<close>

definition raised_of :: "exn + 'a \<Rightarrow> raised + 'a" where
  "raised_of r = (case r of Inl e \<Rightarrow> Inl (Exception e) | Inr x \<Rightarrow> Inr x)"

subsection \<open>An example service\<close>

text \<open>
  Three collections: one whose \<^verbatim>\<open>get\<close> answers four documents (the first of 101
  characters) with a single metadata entry, one whose \<^verbatim>\<open>count\<close> raises, and an empty
  one.
\<close>

definition coll_docs :: "nat collection" where
  "coll_docs =
     \<lparr>c_name = py_lit ''docs'', c_id = py_lit ''id-0'', c_metadata = 0, c_count = Inr 4,
      c_get = Inr \<lparr>documents = Some [Some (replicate 101 97), Some (py_lit ''short''),
                                     Some (py_lit ''third''), Some (py_lit ''fourth'')],
                   metadatas = Some [10]\<rparr>\<rparr>"

definition coll_broken :: "nat collection" where
  "coll_broken =
     \<lparr>c_name = py_lit ''broken'', c_id = py_lit ''id-1'', c_metadata = 1,
      c_count = Inl (py_lit ''timeout''), c_get = Inl (py_lit ''timeout'')\<rparr>"

definition coll_empty :: "nat collection" where
  "coll_empty =
     \<lparr>c_name = py_lit ''empty'', c_id = py_lit ''id-2'', c_metadata = 2, c_count = Inr 0,
      c_get = Inr \<lparr>documents = Some [], metadatas = None\<rparr>\<rparr>"

definition example_client :: "nat client" where
  "example_client =
     \<lparr>heartbeat = Inr 1700000000,
      list_collections = Inr [coll_docs, coll_broken, coll_empty]\<rparr>"

definition example_service :: "nat service" where
  "example_service = Inr example_client"

section \<open>Lemmas\<close>

lemmas example_defs =
  example_service_def example_client_def coll_docs_def coll_broken_def coll_empty_def

lemma calls_append [simp]: "calls (xs @ ys) = calls xs @ calls ys"
  by (induction xs rule: calls.induct) simp_all

lemma prints_append [simp]: "prints (xs @ ys) = prints xs @ prints ys"
  by (induction xs rule: prints.induct) simp_all

subsection \<open>The shape of a run\<close>

lemma for_collections_append:
  "for_collections k (xs @ ys) = for_collections k xs @ for_collections (k + length xs) ys"
  by (induction xs arbitrary: k) simp_all

lemma try_body_listed:
  "service = Inr client \<Longrightarrow> heartbeat client = Inr hb \<Longrightarrow> list_collections client = Inr cs \<Longrightarrow>
   try_body service =
     ([Call (HttpClient ''localhost'' 8000), Call Heartbeat, Print (ConnOK hb),
       Call ListCollections, Print (Found (length cs))] @ for_collections 0 cs, Inr ())"
  by (simp add: try_body_def)

lemma debug_chromadb_listed:
  "service = Inr client \<Longrightarrow> heartbeat client = Inr hb \<Longrightarrow> list_collections client = Inr cs \<Longrightarrow>
   debug_chromadb service =
     ([Print Banner, Call (HttpClient ''localhost'' 8000), Call Heartbeat, Print (ConnOK hb),
       Call ListCollections, Print (Found (length cs))] @ for_collections 0 cs, Returned)"
  by (simp add: debug_chromadb_def try_body_listed)

subsection \<open>The inner loop and the loop body\<close>

text \<open>The guard makes the index safe: the metadata lines never raise.\<close>

lemma preview_metadata_eq:
  "preview_metadata s i =
     ((case metadatas s of
         None \<Rightarrow> []
       | Some ms \<Rightarrow> if ms \<noteq> [] \<and> i < length ms then [Print (PreviewMeta (ms ! i))] else []),
      Inr ())"
  by (simp add: preview_metadata_def py_index_def split: option.splits)

lemma sample_loop_Some:
  "sample_loop s ((i, Some doc) # rest) =
     (Print (Preview i (preview doc)) # fst (preview_metadata s i) @ fst (sample_loop s rest),
      snd (sample_loop s rest))"
  by (simp add: preview_metadata_eq split: prod.splits)

lemma sample_loop_result:
  "snd (sample_loop s ps) = Inr () \<or> snd (sample_loop s ps) = Inl NoneHasNoLen"
proof (induction ps)
  case Nil
  show ?case by simp
next
  case (Cons p ps)
  obtain i d where p: "p = (i, d)" by (cases p)
  show ?case
  proof (cases d)
    case None
    with p show ?thesis by simp
  next
    case (Some doc)
    with p Cons show ?thesis by (simp only: sample_loop_Some snd_conv)
  qed
qed

lemma sample_loop_events:
  "fst (sample_loop s ps) =
     concat (map (\<lambda>(i, d). Print (Preview i (preview (the d))) # fst (preview_metadata s i))
               (takeWhile (\<lambda>(i, d). d \<noteq> None) ps))"
proof (induction ps)
  case Nil
  show ?case by simp
next
  case (Cons p ps)
  obtain i d where p: "p = (i, d)" by (cases p)
  show ?case
  proof (cases d)
    case None
    with p show ?thesis by simp
  next
    case (Some doc)
    with p Cons show ?thesis by (simp add: sample_loop_Some del: sample_loop.simps)
  qed
qed

lemma takeWhile_enumerate:
  "takeWhile (\<lambda>(i, d). P d) (enumerate k xs) = enumerate k (takeWhile P xs)"
  by (induction xs arbitrary: k) simp_all

lemma calls_concat_prints:
  "(\<And>x. x \<in> set xs \<Longrightarrow> calls (f x) = []) \<Longrightarrow> calls (concat (map f xs)) = []"
  by (induction xs) simp_all

lemma calls_sample_loop: "calls (fst (sample_loop s ps)) = []"
  unfolding sample_loop_events
  by (rule calls_concat_prints) (auto simp: preview_metadata_eq split: option.splits)

text \<open>The inner try and the loop body, with the inner loop read through its two components.\<close>

lemma collection_details_cases:
  "collection_details k c =
     (case c_count c of
        Inl e \<Rightarrow> ([Call (Count k)], Inl (LibraryError e))
      | Inr n \<Rightarrow>
          if n > 0 then
            (case c_get c of
               Inl e \<Rightarrow> ([Call (Count k), Print (DocCount n),
                          Call (Get k 3 [''metadatas'', ''documents''])], Inl (LibraryError e))
             | Inr s \<Rightarrow>
                 (case documents s of
                    None \<Rightarrow> ([Call (Count k), Print (DocCount n),
                        Call (Get k 3 [''metadatas'', ''documents'']), Print SampleHeader],
                       Inl NoneNotSubscriptable)
                  | Some docs \<Rightarrow>
                      ([Call (Count k), Print (DocCount n),
                        Call (Get k 3 [''metadatas'', ''documents'']), Print SampleHeader]
                       @ fst (sample_loop s (enumerate 0 (take 3 docs))),
                       snd (sample_loop s (enumerate 0 (take 3 docs))))))
          else ([Call (Count k), Print (DocCount n)], Inr ()))"
  by (simp add: collection_details_def split: sum.splits option.splits prod.splits)

lemma collection_block_eq:
  "collection_block k c =
     [Print (CollName (c_name c)), Print (CollId (c_id c)), Print (CollMeta (c_metadata c))]
     @ fst (collection_details k c)
     @ (case snd (collection_details k c) of Inl e \<Rightarrow> [Print (DetailError e)] | Inr u \<Rightarrow> [])"
  by (simp add: collection_block_def split: prod.splits sum.splits)

lemma calls_collection_block:
  "calls (collection_block k c) =
     (case c_count c of
        Inl e \<Rightarrow> [Count k]
      | Inr n \<Rightarrow> if n > 0 then [Count k, Get k 3 [''metadatas'', ''documents'']] else [Count k])"
  by (simp add: collection_block_eq collection_details_cases calls_sample_loop
      split: sum.splits option.splits)

lemma calls_for_collections:
  "calls (for_collections k cs) =
     concat (map (\<lambda>(i, c). case c_count c of
        Inl e \<Rightarrow> [Count i]
      | Inr n \<Rightarrow> if n > 0 then [Count i, Get i 3 [''metadatas'', ''documents'']] else [Count i])
      (enumerate k cs))"
  by (induction cs arbitrary: k) (simp_all add: calls_collection_block)

subsection \<open>Calls and lines of a block\<close>

lemma Call_in_events: "Call c \<in> set evs \<longleftrightarrow> c \<in> set (calls evs)"
  by (induction evs rule: calls.induct) auto

lemma Count_in_block: "Call (Count k) \<in> set (collection_block k c)"
  by (simp add: collection_block_eq collection_details_cases split: sum.splits option.splits)

lemma Count_in_for_collections:
  "j < length cs \<Longrightarrow> Call (Count (k + j)) \<in> set (for_collections k cs)"
proof (induction cs arbitrary: k j)
  case Nil
  then show ?case by simp
next
  case (Cons c cs)
  show ?case
  proof (cases j)
    case 0
    then show ?thesis by (simp add: Count_in_block)
  next
    case (Suc j')
    with Cons.prems have "j' < length cs" by simp
    from Cons.IH [OF this, of "Suc k"] Suc show ?thesis by simp
  qed
qed

lemma Name_in_block: "Print (CollName (c_name c)) \<in> set (collection_block k c)"
  by (simp add: collection_block_eq)

lemma Name_in_for_collections:
  "j < length cs \<Longrightarrow> Print (CollName (c_name (cs ! j))) \<in> set (for_collections k cs)"
proof (induction cs arbitrary: k j)
  case Nil
  then show ?case by simp
next
  case (Cons c cs)
  show ?case
  proof (cases j)
    case 0
    then show ?thesis by (simp add: Name_in_block)
  next
    case (Suc j')
    with Cons.prems have "j' < length cs" by simp
    from Cons.IH [OF this, of "Suc k"] Suc show ?thesis by simp
  qed
qed

lemma detail_error_last:
  "snd (collection_details k c) = Inl e \<Longrightarrow> last (collection_block k c) = Print (DetailError e)"
  by (simp add: collection_block_eq)

lemma fetch_raises:
  "c_count c = Inl e \<or> (\<exists>n. c_count c = Inr n \<and> 0 < n \<and> c_get c = Inl e) \<Longrightarrow>
   snd (collection_details k c) = Inl (LibraryError e)"
  by (auto simp: collection_details_cases)

lemma sample_loop_lines:
  "ev \<in> set (fst (sample_loop s ps)) \<Longrightarrow>
     (\<exists>i p. ev = Print (Preview i p)) \<or> (\<exists>m. ev = Print (PreviewMeta m))"
  by (auto simp: sample_loop_events preview_metadata_eq split: option.splits if_splits)

lemma SampleHeader_not_sampled [simp]: "Print SampleHeader \<notin> set (fst (sample_loop s ps))"
  using sample_loop_lines [of "Print SampleHeader" s ps] by auto

lemma SampleHeader_in_block:
  "Print SampleHeader \<in> set (collection_block k c) \<longleftrightarrow>
     (\<exists>n s. c_count c = Inr n \<and> 0 < n \<and> c_get c = Inr s)"
  by (auto simp: collection_block_eq collection_details_cases
      split: sum.splits option.splits)

lemma Get_in_block:
  "Get j l inc \<in> set (calls (collection_block k c)) \<longleftrightarrow>
     j = k \<and> l = 3 \<and> inc = [''metadatas'', ''documents''] \<and> (\<exists>n. c_count c = Inr n \<and> 0 < n)"
  by (auto simp: calls_collection_block split: sum.splits if_splits)

lemma Get_in_for_collections:
  "Get j l inc \<in> set (calls (for_collections k cs)) \<longleftrightarrow>
     k \<le> j \<and> j < k + length cs \<and> l = 3 \<and> inc = [''metadatas'', ''documents'']
     \<and> (\<exists>n. c_count (cs ! (j - k)) = Inr n \<and> 0 < n)"
proof (induction cs arbitrary: k)
  case Nil
  show ?case by simp
next
  case (Cons c cs)
  show ?case
  proof (cases "j = k")
    case True
    with Cons.IH [of "Suc k"] show ?thesis by (auto simp: Get_in_block)
  next
    case False
    then have "(j - k) = Suc (j - Suc k)" if "k \<le> j" using that by simp
    with False Cons.IH [of "Suc k"] show ?thesis
      by (auto simp: Get_in_block Suc_le_eq nth_Cons')
  qed
qed

lemma Get_in_run:
  "Get k l inc \<in> set (calls (events (debug_chromadb service))) \<longleftrightarrow>
     (\<exists>client hb cs n. service = Inr client \<and> heartbeat client = Inr hb
        \<and> list_collections client = Inr cs \<and> k < length cs
        \<and> c_count (cs ! k) = Inr n \<and> 0 < n)
     \<and> l = 3 \<and> inc = [''metadatas'', ''documents'']"
  by (auto simp: debug_chromadb_def try_body_def events_def Get_in_for_collections
      split: sum.splits)

subsection \<open>Previews\<close>

lemma previews_append [simp]: "previews (xs @ ys) = previews xs @ previews ys"
  by (induction xs rule: previews.induct) simp_all

lemma previews_preview_metadata [simp]: "previews (fst (preview_metadata s i)) = []"
  by (simp add: preview_metadata_eq split: option.splits)

lemma previews_sample_loop:
  "previews (fst (sample_loop s ps)) =
     map (\<lambda>(i, d). (i, preview (the d))) (takeWhile (\<lambda>(i, d). d \<noteq> None) ps)"
proof (induction ps)
  case Nil
  show ?case by simp
next
  case (Cons p ps)
  obtain i d where p: "p = (i, d)" by (cases p)
  show ?case
  proof (cases d)
    case None
    with p show ?thesis by simp
  next
    case (Some doc)
    with p Cons show ?thesis by (simp add: sample_loop_Some del: sample_loop.simps)
  qed
qed

lemma map_enumerate_the:
  "map (\<lambda>(i, d). (i, f (the d))) (enumerate k xs) = map (\<lambda>(i, doc). (i, f doc)) (enumerate k (map the xs))"
  by (induction xs arbitrary: k) simp_all

lemma previews_sampled:
  "previews (fst (sample_loop s (enumerate 0 (take 3 docs)))) =
     map (\<lambda>(i, doc). (i, preview doc))
       (enumerate 0 (map the (takeWhile (\<lambda>d. d \<noteq> None) (take 3 docs))))"
  by (simp only: previews_sample_loop takeWhile_enumerate map_enumerate_the)

lemma previews_collection_block:
  "previews (collection_block k c) =
     (case c_count c of
        Inl e \<Rightarrow> []
      | Inr n \<Rightarrow>
          if n > 0 then
            (case c_get c of
               Inl e \<Rightarrow> []
             | Inr s \<Rightarrow>
                 (case documents s of
                    None \<Rightarrow> []
                  | Some docs \<Rightarrow>
                      map (\<lambda>(i, doc). (i, preview doc))
                        (enumerate 0 (map the (takeWhile (\<lambda>d. d \<noteq> None) (take 3 docs))))))
          else [])"
  by (simp add: collection_block_eq collection_details_cases previews_sampled
      split: sum.splits option.splits)

lemma length_previews_block: "length (previews (collection_block k c)) \<le> 3"
proof -
  have "length (takeWhile P (take 3 xs)) \<le> 3" for P and xs :: "pystr option list"
    using length_takeWhile_le [of P "take 3 xs"] by simp
  then show ?thesis
    by (simp add: previews_collection_block split: sum.splits option.splits)
qed

lemma preview_metadata_cong:
  "metadatas s' = metadatas s \<Longrightarrow> preview_metadata s' i = preview_metadata s i"
  by (simp add: preview_metadata_eq)

lemma sample_loop_cong:
  assumes "metadatas s' = metadatas s"
  shows "sample_loop s' ps = sample_loop s ps"
proof (induction ps)
  case Nil
  show ?case by simp
next
  case (Cons p ps)
  obtain i d where p: "p = (i, d)" by (cases p)
  show ?case
  proof (cases d)
    case None
    with p show ?thesis by simp
  next
    case (Some doc)
    with p Cons preview_metadata_cong [OF assms] show ?thesis
      by (simp add: sample_loop_Some del: sample_loop.simps)
  qed
qed

lemma collection_block_take3:
  assumes "c_get c = Inr s" and "documents s = Some docs"
  shows "collection_block k (c\<lparr>c_get := Inr (s\<lparr>documents := Some (take 3 docs)\<rparr>)\<rparr>)
         = collection_block k c"
proof -
  have "sample_loop (s\<lparr>documents := Some (take 3 docs)\<rparr>) ps = sample_loop s ps" for ps
    by (rule sample_loop_cong) simp
  with assms show ?thesis
    by (simp add: collection_block_eq collection_details_cases split: sum.splits)
qed

lemma sampled_events:
  "fst (sample_loop s (enumerate 0 (take 3 docs))) =
     concat (map (\<lambda>(i, doc). Print (Preview i (preview doc)) # fst (preview_metadata s i))
       (enumerate 0 (map the (takeWhile (\<lambda>d. d \<noteq> None) (take 3 docs)))))"
proof -
  have "map (\<lambda>(i, d). Print (Preview i (preview (the d))) # fst (preview_metadata s i))
          (enumerate k xs)
        = map (\<lambda>(i, doc). Print (Preview i (preview doc)) # fst (preview_metadata s i))
          (enumerate k (map the xs))" for k and xs :: "pystr option list"
    by (induction xs arbitrary: k) simp_all
  then show ?thesis
    by (simp only: sample_loop_events takeWhile_enumerate)
qed

subsection \<open>Block lines\<close>

lemma block_lines_sample_loop [simp]: "filter is_block_line (prints (fst (sample_loop s ps))) = []"
proof (induction ps)
  case Nil
  show ?case by simp
next
  case (Cons p ps)
  obtain i d where p: "p = (i, d)" by (cases p)
  show ?case
  proof (cases d)
    case None
    with p show ?thesis by simp
  next
    case (Some doc)
    with p Cons show ?thesis
      by (simp add: sample_loop_Some preview_metadata_eq del: sample_loop.simps split: option.splits)
  qed
qed

lemma block_lines_collection_block:
  "filter is_block_line (prints (collection_block k c)) =
     [CollName (c_name c), CollId (c_id c), CollMeta (c_metadata c)]"
  by (simp add: collection_block_eq collection_details_cases split: sum.splits option.splits)

lemma found_sample_loop [simp]: "filter is_found (prints (fst (sample_loop s ps))) = []"
proof (induction ps)
  case Nil
  show ?case by simp
next
  case (Cons p ps)
  obtain i d where p: "p = (i, d)" by (cases p)
  show ?case
  proof (cases d)
    case None
    with p show ?thesis by simp
  next
    case (Some doc)
    with p Cons show ?thesis
      by (simp add: sample_loop_Some preview_metadata_eq del: sample_loop.simps split: option.splits)
  qed
qed

lemma found_collection_block: "filter is_found (prints (collection_block k c)) = []"
  by (simp add: collection_block_eq collection_details_cases split: sum.splits option.splits)

lemma block_lines_for_collections:
  "filter is_block_line (prints (for_collections k cs)) =
     concat (map (\<lambda>c. [CollName (c_name c), CollId (c_id c), CollMeta (c_metadata c)]) cs)"
  by (induction cs arbitrary: k) (simp_all add: block_lines_collection_block)

lemma found_for_collections: "filter is_found (prints (for_collections k cs)) = []"
  by (induction cs arbitrary: k) (simp_all add: found_collection_block)

subsection \<open>Counting calls\<close>

lemma calls_block_counts:
  "filter is_HttpClient (calls (collection_block k c)) = []"
  "count_list (calls (collection_block k c)) Heartbeat = 0"
  "count_list (calls (collection_block k c)) ListCollections = 0"
  "count_list (calls (collection_block k c)) (Count j) = (if j = k then 1 else 0)"
  "length (filter (is_Get j) (calls (collection_block k c))) \<le> (if j = k then 1 else 0)"
  by (simp_all add: calls_collection_block split: sum.splits)

lemma calls_loop_other:
  "filter is_HttpClient (calls (for_collections k cs)) = []"
  "count_list (calls (for_collections k cs)) Heartbeat = 0"
  "count_list (calls (for_collections k cs)) ListCollections = 0"
  by (induction cs arbitrary: k) (simp_all add: calls_block_counts)

lemma calls_loop_below:
  "j < k \<Longrightarrow> count_list (calls (for_collections k cs)) (Count j) = 0"
  "j < k \<Longrightarrow> filter (is_Get j) (calls (for_collections k cs)) = []"
  by (induction cs arbitrary: k) (simp_all add: calls_collection_block split: sum.splits)

lemma calls_loop_once:
  "count_list (calls (for_collections k cs)) (Count j) \<le> Suc 0"
  "length (filter (is_Get j) (calls (for_collections k cs))) \<le> Suc 0"
proof (induction cs arbitrary: k)
  case Nil
  { case 1 show ?case by simp }
  { case 2 show ?case by simp }
next
  case (Cons c cs)
  { case 1
    show ?case
    proof (cases "j = k")
      case True
      then show ?thesis by (simp add: calls_block_counts calls_loop_below)
    next
      case False
      then show ?thesis using Cons(1) [of "Suc k"] by (simp add: calls_block_counts)
    qed }
  { case 2
    show ?case
    proof (cases "j = k")
      case True
      then have "filter (is_Get j) (calls (for_collections (Suc k) cs)) = []"
        by (simp add: calls_loop_below)
      then show ?thesis using True calls_block_counts(5) [of j k c] by simp
    next
      case False
      then have "filter (is_Get j) (calls (collection_block k c)) = []"
        using calls_block_counts(5) [of j k c] by simp
      then show ?thesis using Cons(2) [of "Suc k"] by simp
    qed }
qed

subsection \<open>No index error\<close>

lemma sample_loop_no_IndexError: "snd (sample_loop s ps) \<noteq> Inl IndexError"
  using sample_loop_result [of s ps] by auto

lemma collection_details_no_IndexError: "snd (collection_details k c) \<noteq> Inl IndexError"
  by (simp add: collection_details_cases sample_loop_no_IndexError
      split: sum.splits option.splits)

lemma DetailError_not_sampled [simp]: "Print (DetailError e) \<notin> set (fst (sample_loop s ps))"
  using sample_loop_lines [of "Print (DetailError e)" s ps] by auto

lemma DetailError_in_block:
  "Print (DetailError e) \<in> set (collection_block k c) \<Longrightarrow> snd (collection_details k c) = Inl e"
  by (auto simp: collection_block_eq collection_details_cases
      split: sum.splits option.splits if_splits)

lemma no_IndexError_in_block: "Print (DetailError IndexError) \<notin> set (collection_block k c)"
  using DetailError_in_block [of IndexError k c] collection_details_no_IndexError [of k c]
  by blast

lemma no_IndexError_in_for_collections:
  "Print (DetailError IndexError) \<notin> set (for_collections k cs)"
  by (induction cs arbitrary: k) (simp_all add: no_IndexError_in_block)

lemma no_IndexError_reported:
  "Print (DetailError IndexError) \<notin> set (events (debug_chromadb service))"
  by (simp add: debug_chromadb_def try_body_def events_def no_IndexError_in_for_collections
      split: sum.splits)

subsection \<open>The script as a process\<close>

text \<open>
  Every statement but the reading of \<^verbatim>\<open>sys.argv\<close> reads no arguments, and sequencing
  and \<^verbatim>\<open>try\<close> keep the property.
\<close>

lemma reads_no_argv_pure [simp]: "reads_no_argv (pure_s x)"
  by (simp add: reads_no_argv_def pure_s_def)

lemma reads_no_argv_print [simp]: "reads_no_argv (print_s l)"
  by (simp add: reads_no_argv_def print_s_def)

lemma reads_no_argv_raise [simp]: "reads_no_argv (raise_s e)"
  by (simp add: reads_no_argv_def raise_s_def)

lemma reads_no_argv_exit [simp]: "reads_no_argv (sys_exit n)"
  by (simp add: reads_no_argv_def sys_exit_def)

lemma reads_no_argv_call [simp]: "reads_no_argv (call_s c answer)"
  by (simp add: reads_no_argv_def call_s_def)

lemma reads_no_argv_http_client [simp]: "reads_no_argv (http_client host port)"
  by (simp add: reads_no_argv_def http_client_def call_s_def)

lemma reads_no_argv_bind:
  "reads_no_argv m \<Longrightarrow> (\<And>x. reads_no_argv (f x)) \<Longrightarrow> reads_no_argv (bind_s m f)"
proof (unfold reads_no_argv_def, intro allI impI)
  fix p p' :: "'a process"
  assume m: "\<forall>p p'. chromadb p = chromadb p' \<longrightarrow> m p = m p'"
    and f: "\<And>x. \<forall>p p'. chromadb p = chromadb p' \<longrightarrow> f x p = f x p'"
    and eq: "chromadb p = chromadb p'"
  from m eq have "m p = m p'" by blast
  moreover from f eq have "f x p = f x p'" for x by blast
  ultimately show "bind_s m f p = bind_s m f p'" by (simp add: bind_s_def)
qed

lemma reads_no_argv_then:
  "reads_no_argv m \<Longrightarrow> reads_no_argv n \<Longrightarrow> reads_no_argv (then_s m n)"
  by (simp add: then_s_def reads_no_argv_bind)

lemma reads_no_argv_try:
  "reads_no_argv m \<Longrightarrow> (\<And>e. reads_no_argv (h e)) \<Longrightarrow> reads_no_argv (try_except m h)"
proof (unfold reads_no_argv_def, intro allI impI)
  fix p p' :: "'a process"
  assume m: "\<forall>p p'. chromadb p = chromadb p' \<longrightarrow> m p = m p'"
    and h: "\<And>e. \<forall>p p'. chromadb p = chromadb p' \<longrightarrow> h e p = h e p'"
    and eq: "chromadb p = chromadb p'"
  from m eq have "m p = m p'" by blast
  moreover from h eq have "h e p = h e p'" for e by blast
  ultimately show "try_except m h p = try_except m h p'" by (simp add: try_except_def)
qed

lemma read_argv_reads: "\<not> reads_no_argv (read_argv :: ('m, pystr list) script)"
proof
  assume "reads_no_argv (read_argv :: ('m, pystr list) script)"
  then have "read_argv \<lparr>sys_argv = [], chromadb = Inl []\<rparr>
           = (read_argv \<lparr>sys_argv = [[]], chromadb = Inl []\<rparr> :: 'm event list \<times> (raised + pystr list))"
    unfolding reads_no_argv_def by simp
  then show False by (simp add: read_argv_def)
qed

lemma reads_no_argv_index [simp]: "reads_no_argv (index_s xs i)"
  by (simp add: index_s_def split: sum.splits)

lemma reads_no_argv_preview_metadata [simp]: "reads_no_argv (preview_metadata_s s i)"
  by (simp add: preview_metadata_s_def reads_no_argv_bind split: option.splits)

lemma reads_no_argv_sample_loop [simp]: "reads_no_argv (sample_loop_s s ps)"
  by (induction s ps rule: sample_loop_s.induct) (simp_all add: reads_no_argv_then)

lemma reads_no_argv_collection_details [simp]: "reads_no_argv (collection_details_s k c)"
  by (auto simp: collection_details_s_def intro!: reads_no_argv_bind reads_no_argv_then
      split: option.splits)

lemma reads_no_argv_collection_block [simp]: "reads_no_argv (collection_block_s k c)"
  by (simp add: collection_block_s_def reads_no_argv_then reads_no_argv_try)

lemma reads_no_argv_for_collections [simp]: "reads_no_argv (for_collections_s k cs)"
  by (induction cs arbitrary: k) (simp_all add: reads_no_argv_then)

lemma reads_no_argv_try_body: "reads_no_argv try_body_s"
  by (auto simp: try_body_s_def intro!: reads_no_argv_bind reads_no_argv_then)

lemma reads_no_argv_debug_chromadb: "reads_no_argv debug_chromadb_s"
  by (simp add: debug_chromadb_s_def reads_no_argv_then reads_no_argv_try reads_no_argv_try_body)

lemma process_main_agrees:
  "chromadb p = chromadb p' \<Longrightarrow> process_main p = process_main p'"
  using reads_no_argv_debug_chromadb
  unfolding reads_no_argv_def process_main_def by blast

text \<open>A script that prints the number of its arguments depends on them.\<close>

lemma argv_printing_script_depends:
  "then_s (print_s Banner) (bind_s read_argv (\<lambda>argv. print_s (Found (length argv))))
     \<lparr>sys_argv = [], chromadb = service\<rparr>
   \<noteq> then_s (print_s Banner) (bind_s read_argv (\<lambda>argv. print_s (Found (length argv))))
     \<lparr>sys_argv = [py_lit ''--verbose''], chromadb = service\<rparr>"
  by (simp add: then_s_def bind_s_def print_s_def read_argv_def)

text \<open>The two embeddings give the same run.\<close>

lemma preview_metadata_s_eq:
  "preview_metadata_s s i p = (fst (preview_metadata s i), raised_of (snd (preview_metadata s i)))"
  by (simp add: preview_metadata_s_def preview_metadata_def index_s_def py_index_def bind_s_def
      pure_s_def print_s_def raise_s_def raised_of_def split: option.splits)

lemma sample_loop_s_eq:
  "sample_loop_s s ps p = (fst (sample_loop s ps), raised_of (snd (sample_loop s ps)))"
proof (induction ps)
  case Nil
  show ?case by (simp add: pure_s_def raised_of_def)
next
  case (Cons q ps)
  obtain i d where q: "q = (i, d)" by (cases q)
  show ?case
  proof (cases d)
    case None
    with q show ?thesis by (simp add: raise_s_def raised_of_def)
  next
    case (Some doc)
    with q Cons show ?thesis
      by (simp add: sample_loop_Some then_s_def bind_s_def print_s_def preview_metadata_s_eq
          preview_metadata_eq raised_of_def del: sample_loop.simps)
  qed
qed

lemma collection_details_s_eq:
  "collection_details_s k c p =
     (fst (collection_details k c), raised_of (snd (collection_details k c)))"
  by (simp add: collection_details_s_def collection_details_cases then_s_def bind_s_def
      call_s_def print_s_def pure_s_def raise_s_def sample_loop_s_eq raised_of_def
      split: sum.splits option.splits)

lemma collection_block_s_eq: "collection_block_s k c p = (collection_block k c, Inr ())"
  by (simp add: collection_block_s_def collection_block_eq then_s_def bind_s_def print_s_def
      try_except_def collection_details_s_eq raised_of_def split: sum.splits)

lemma for_collections_s_eq: "for_collections_s k cs p = (for_collections k cs, Inr ())"
  by (induction cs arbitrary: k)
     (simp_all add: pure_s_def then_s_def bind_s_def collection_block_s_eq)

lemma try_body_s_eq:
  "try_body_s p = (fst (try_body (chromadb p)), raised_of (snd (try_body (chromadb p))))"
  by (simp add: try_body_s_def try_body_def then_s_def bind_s_def http_client_def call_s_def
      print_s_def for_collections_s_eq raised_of_def split: sum.splits)

lemma process_main_refines:
  "process_main p =
     (fst (debug_chromadb (chromadb p)),
      case snd (debug_chromadb (chromadb p)) of
        Returned \<Rightarrow> Inr ()
      | SysExit n \<Rightarrow> Inl (SystemExit n))"
  by (simp add: process_main_def debug_chromadb_s_def debug_chromadb_def then_s_def bind_s_def
      print_s_def try_except_def sys_exit_def try_body_s_eq raised_of_def
      split: sum.splits prod.splits)

section \<open>Exit status\<close>

text \<open>
  C1. When the constructor returns a client and the heartbeat call raises \<open>e\<close>, the run
  prints the banner and the line reporting the connection failure with \<open>e\<close>, nothing
  else, and the process exits with status 1. More generally, when the body of the outer
  try block raises, the last line printed reports the connection failure and the status
  is 1. When the body of the outer try block ends without an exception, the process
  exits with status 0.
\<close>

theorem heartbeat_failure_exits_1:
  "(service = Inr client \<and> heartbeat client = Inl e \<longrightarrow>
      prints (events (debug_chromadb service)) = [Banner, ConnFailed (LibraryError e)]
      \<and> status (debug_chromadb service) = 1)
   \<and> (snd (try_body service) = Inl x \<longrightarrow>
        last (prints (events (debug_chromadb service))) = ConnFailed x
        \<and> status (debug_chromadb service) = 1)
   \<and> (snd (try_body service) = Inr () \<longrightarrow> status (debug_chromadb service) = 0)"
  by (auto simp: debug_chromadb_def try_body_def events_def status_def
      split: prod.splits sum.splits)

theorem heartbeat_failure_exits_1_witness:
  "prints (events (debug_chromadb
      (Inr \<lparr>heartbeat = Inl (py_lit ''refused''),
            list_collections = Inr []\<rparr> :: unit service)))
     = [Banner, ConnFailed (LibraryError (py_lit ''refused''))]
   \<and> status (debug_chromadb
      (Inr \<lparr>heartbeat = Inl (py_lit ''refused''),
            list_collections = Inr []\<rparr> :: unit service)) = 1
   \<and> snd (try_body (Inr \<lparr>heartbeat = Inl (py_lit ''refused''),
                             list_collections = Inr []\<rparr> :: unit service))
     = Inl (LibraryError (py_lit ''refused''))
   \<and> snd (try_body (Inr \<lparr>heartbeat = Inr 7, list_collections = Inr []\<rparr> :: unit service))
     = Inr ()
   \<and> status (debug_chromadb
      (Inr \<lparr>heartbeat = Inr 7, list_collections = Inr []\<rparr> :: unit service)) = 0"
  using heartbeat_failure_exits_1
          [of "Inr \<lparr>heartbeat = Inl (py_lit ''refused''),
                    list_collections = Inr []\<rparr> :: unit service"
              "\<lparr>heartbeat = Inl (py_lit ''refused''), list_collections = Inr []\<rparr>"
              "py_lit ''refused''" "LibraryError (py_lit ''refused'')"]
        heartbeat_failure_exits_1
          [of "Inr \<lparr>heartbeat = Inr 7, list_collections = Inr []\<rparr> :: unit service"]
  by (simp add: try_body_def)

section \<open>Failures while fetching the details of a collection\<close>

text \<open>
  C2. Take any list of collections returned by the service and any collection \<open>c\<close> in
  it whose \<^verbatim>\<open>count\<close> call raises, or whose \<^verbatim>\<open>get\<close> call raises after a positive
  count. The block of \<open>c\<close> ends with the line that reports the exception, the blocks of
  all the collections after \<open>c\<close> follow it in full (each later collection has its name
  printed and its \<^verbatim>\<open>count\<close> called), and the process exits with status 0.
\<close>

theorem detail_failure_continues:
  assumes "service = Inr client" and "heartbeat client = Inr hb"
    and "list_collections client = Inr (before @ c # after)"
    and "c_count c = Inl e \<or> (\<exists>n. c_count c = Inr n \<and> 0 < n \<and> c_get c = Inl e)"
  shows "events (debug_chromadb service) =
           [Print Banner, Call (HttpClient ''localhost'' 8000), Call Heartbeat, Print (ConnOK hb),
            Call ListCollections, Print (Found (length (before @ c # after)))]
           @ for_collections 0 before
           @ collection_block (length before) c
           @ for_collections (Suc (length before)) after
         \<and> last (collection_block (length before) c) = Print (DetailError (LibraryError e))
         \<and> (\<forall>j < length after.
               Print (CollName (c_name (after ! j))) \<in> set (events (debug_chromadb service))
               \<and> Call (Count (Suc (length before) + j)) \<in> set (events (debug_chromadb service)))
         \<and> status (debug_chromadb service) = 0"
proof -
  let ?hd = "[Print Banner, Call (HttpClient ''localhost'' 8000), Call Heartbeat,
              Print (ConnOK hb), Call ListCollections,
              Print (Found (length (before @ c # after)))]"
  have run: "debug_chromadb service = (?hd @ for_collections 0 (before @ c # after), Returned)"
    using assms(1-3) by (rule debug_chromadb_listed)
  have ev: "events (debug_chromadb service) =
      ?hd @ for_collections 0 before @ collection_block (length before) c
      @ for_collections (Suc (length before)) after"
    by (simp add: run events_def for_collections_append)
  have err: "last (collection_block (length before) c) = Print (DetailError (LibraryError e))"
    using assms(4) by (intro detail_error_last fetch_raises)
  have later: "Print (CollName (c_name (after ! j))) \<in> set (events (debug_chromadb service))
      \<and> Call (Count (Suc (length before) + j)) \<in> set (events (debug_chromadb service))"
    if "j < length after" for j
  proof -
    have "Call (Count (Suc (length before) + j)) \<in> set (for_collections (Suc (length before)) after)"
      using that by (rule Count_in_for_collections)
    moreover have "Print (CollName (c_name (after ! j))) \<in> set (for_collections (Suc (length before)) after)"
      using that by (rule Name_in_for_collections)
    ultimately show ?thesis unfolding ev by simp
  qed
  have st: "status (debug_chromadb service) = 0"
    by (simp add: run status_def)
  from ev err later st show ?thesis by blast
qed

theorem detail_failure_continues_witness:
  "list_collections example_client = Inr ([coll_docs] @ coll_broken # [coll_empty])
   \<and> c_count coll_broken = Inl (py_lit ''timeout'')
   \<and> last (collection_block 1 coll_broken) = Print (DetailError (LibraryError (py_lit ''timeout'')))
   \<and> Print (CollName (py_lit ''empty'')) \<in> set (events (debug_chromadb example_service))
   \<and> Call (Count 2) \<in> set (events (debug_chromadb example_service))
   \<and> status (debug_chromadb example_service) = 0"
  using detail_failure_continues
          [of example_service example_client 1700000000 "[coll_docs]" coll_broken "[coll_empty]"
              "py_lit ''timeout''"]
  by (simp add: example_defs debug_chromadb_def try_body_def collection_block_def
      collection_details_def preview_metadata_def py_index_def preview_def events_def status_def)

section \<open>Document previews\<close>

text \<open>
  C3. For a collection that is sampled (positive count, \<^verbatim>\<open>get\<close> returns a list of
  documents), the previews printed are those of the first three documents, up to the
  first one that is \<^verbatim>\<open>None\<close>, numbered from 0: a document of more than 100 characters
  is printed as its first 100 characters followed by \<^verbatim>\<open>...\<close>, any other document is
  printed unchanged.
\<close>

theorem preview_truncates_at_100:
  assumes "c_count c = Inr n" and "0 < n" and "c_get c = Inr s" and "documents s = Some docs"
  shows "previews (collection_block k c) =
           map (\<lambda>(i, doc). (i, if length doc > 100 then take 100 doc @ py_lit ''...'' else doc))
             (enumerate 0 (map the (takeWhile (\<lambda>d. d \<noteq> None) (take 3 docs))))"
  using assms by (simp add: previews_collection_block preview_def)

theorem preview_truncates_at_100_witness:
  "previews (collection_block 0
      \<lparr>c_name = py_lit ''notes'', c_id = py_lit ''id-1'', c_metadata = (),
       c_count = Inr 2,
       c_get = Inr \<lparr>documents = Some [Some (replicate 101 97), Some (replicate 100 98)],
                    metadatas = None\<rparr>\<rparr>)
   = [(0, replicate 100 97 @ py_lit ''...''), (1, replicate 100 98)]"
  using preview_truncates_at_100 [of "\<lparr>c_name = py_lit ''notes'', c_id = py_lit ''id-1'', c_metadata = (),
       c_count = Inr 2,
       c_get = Inr \<lparr>documents = Some [Some (replicate 101 97), Some (replicate 100 98)],
                    metadatas = None\<rparr>\<rparr>" 2
       "\<lparr>documents = Some [Some (replicate 101 97), Some (replicate 100 98)],
                    metadatas = None\<rparr>" "[Some (replicate 101 97), Some (replicate 100 98)]" 0]
  by (simp add: enumerate_eq_zip upt_rec [of 0] upt_rec [of 1])

section \<open>Collection blocks\<close>

text \<open>
  C4. When the service returns a list of \<open>N\<close> collections, the run prints one line
  counting the collections, and it reports \<open>N\<close>; the lines that open a block (name,
  identifier, metadata) are printed once for each collection, in the order of the list.
\<close>

theorem one_block_per_collection:
  assumes "service = Inr client" and "heartbeat client = Inr hb"
    and "list_collections client = Inr cs"
  shows "filter is_found (prints (events (debug_chromadb service))) = [Found (length cs)]
       \<and> filter is_block_line (prints (events (debug_chromadb service))) =
           concat (map (\<lambda>c. [CollName (c_name c), CollId (c_id c), CollMeta (c_metadata c)]) cs)"
  by (simp add: debug_chromadb_listed [OF assms] events_def
      block_lines_for_collections found_for_collections)

theorem one_block_per_collection_witness:
  "filter is_found (prints (events (debug_chromadb example_service))) = [Found 3]
   \<and> filter is_block_line (prints (events (debug_chromadb example_service))) =
       [CollName (py_lit ''docs''), CollId (py_lit ''id-0''), CollMeta 0,
        CollName (py_lit ''broken''), CollId (py_lit ''id-1''), CollMeta 1,
        CollName (py_lit ''empty''), CollId (py_lit ''id-2''), CollMeta 2]"
  using one_block_per_collection
          [of example_service example_client 1700000000 "[coll_docs, coll_broken, coll_empty]"]
  by (simp add: example_defs debug_chromadb_def try_body_def collection_block_def
      collection_details_def preview_metadata_def py_index_def preview_def events_def status_def)

section \<open>Order of the calls\<close>

text \<open>
  C5. The calls of a run, in order: the constructor of the client; then, if it
  returned, the heartbeat; then, if that returned, the listing of the collections; then,
  if that returned, for each collection in turn its \<^verbatim>\<open>count\<close>, followed by its
  \<^verbatim>\<open>get\<close> when the count returned a positive number. A call that raises in the chain
  constructor, heartbeat, listing ends the calls of the run. A \<^verbatim>\<open>count\<close> that raises
  is not followed by the \<^verbatim>\<open>get\<close> of its collection, but the calls on the collections
  after it are still made: the inner handler catches the exception and the loop goes on.
\<close>

theorem call_order:
  "calls (events (debug_chromadb service)) =
     (case service of
        Inl e \<Rightarrow> [HttpClient ''localhost'' 8000]
      | Inr client \<Rightarrow>
          (case heartbeat client of
             Inl e \<Rightarrow> [HttpClient ''localhost'' 8000, Heartbeat]
           | Inr hb \<Rightarrow>
               (case list_collections client of
                  Inl e \<Rightarrow> [HttpClient ''localhost'' 8000, Heartbeat, ListCollections]
                | Inr cs \<Rightarrow>
                    [HttpClient ''localhost'' 8000, Heartbeat, ListCollections]
                    @ concat (map (\<lambda>(k, c).
                        case c_count c of
                          Inl e \<Rightarrow> [Count k]
                        | Inr n \<Rightarrow>
                            if n > 0 then [Count k, Get k 3 [''metadatas'', ''documents'']]
                            else [Count k])
                      (enumerate 0 cs)))))"
  by (simp add: debug_chromadb_def try_body_def events_def calls_for_collections
      split: sum.splits)

text \<open>
  In the example service the \<^verbatim>\<open>count\<close> of the collection at position 1 raises, and
  the \<^verbatim>\<open>count\<close> of the collection at position 2 is called after it: a call that fails
  is not always the last call of a run.
\<close>

theorem call_order_counterexample:
  "list_collections example_client = Inr [coll_docs, coll_broken, coll_empty]
   \<and> c_count coll_broken = Inl (py_lit ''timeout'')
   \<and> calls (events (debug_chromadb example_service)) =
       [HttpClient ''localhost'' 8000, Heartbeat, ListCollections,
        Count 0, Get 0 3 [''metadatas'', ''documents''], Count 1, Count 2]"
  by (simp add: example_defs debug_chromadb_def try_body_def collection_block_def
      collection_details_def preview_metadata_def py_index_def events_def)

section \<open>No retries\<close>

text \<open>
  C6. In every run the client is constructed exactly once, with the fixed host and
  port; the heartbeat and the listing are called at most once; and for every position
  \<open>k\<close> the collection at \<open>k\<close> has its \<^verbatim>\<open>count\<close> and its \<^verbatim>\<open>get\<close> called at most once,
  whether the calls return or raise.
\<close>

theorem no_retries:
  "filter is_HttpClient (calls (events (debug_chromadb service))) = [HttpClient ''localhost'' 8000]
   \<and> count_list (calls (events (debug_chromadb service))) Heartbeat \<le> 1
   \<and> count_list (calls (events (debug_chromadb service))) ListCollections \<le> 1
   \<and> (\<forall>k. count_list (calls (events (debug_chromadb service))) (Count k) \<le> 1)
   \<and> (\<forall>k. length (filter (is_Get k) (calls (events (debug_chromadb service)))) \<le> 1)"
  by (simp add: debug_chromadb_def try_body_def events_def calls_loop_other calls_loop_once
      split: sum.splits)

section \<open>Command line\<close>

text \<open>
  C7. Two runs of the process whose states differ only in the command line
  \<^verbatim>\<open>sys.argv\<close> (the service answers the same) produce the same events, so the same
  printed output, and end the same way, so with the same exit status: no statement of
  the script reads the command line.
\<close>

theorem argv_independent:
  "process_main \<lparr>sys_argv = argv, chromadb = service\<rparr>
     = process_main \<lparr>sys_argv = argv', chromadb = service\<rparr>
   \<and> prints (fst (process_main \<lparr>sys_argv = argv, chromadb = service\<rparr>))
     = prints (fst (process_main \<lparr>sys_argv = argv', chromadb = service\<rparr>))
   \<and> process_status (snd (process_main \<lparr>sys_argv = argv, chromadb = service\<rparr>))
     = process_status (snd (process_main \<lparr>sys_argv = argv', chromadb = service\<rparr>))"
  using process_main_agrees
          [of "\<lparr>sys_argv = argv, chromadb = service\<rparr>" "\<lparr>sys_argv = argv', chromadb = service\<rparr>"]
  by simp

section \<open>Empty collections\<close>

text \<open>
  C8. For a collection at position \<open>k\<close> whose \<^verbatim>\<open>count\<close> returns 0, the run makes no
  \<^verbatim>\<open>get\<close> call on it and its block has no \<^verbatim>\<open>Sample documents:\<close> line. A \<^verbatim>\<open>get\<close> call
  on the collection at \<open>k\<close> occurs in a run only when its \<^verbatim>\<open>count\<close> returned a number
  strictly greater than 0.
\<close>

theorem no_sample_when_count_zero:
  "(service = Inr client \<and> list_collections client = Inr cs \<and> k < length cs
      \<and> c_count (cs ! k) = Inr 0 \<longrightarrow>
        (\<forall>l inc. Call (Get k l inc) \<notin> set (events (debug_chromadb service)))
        \<and> Print SampleHeader \<notin> set (collection_block k (cs ! k)))
   \<and> (Call (Get k l inc) \<in> set (events (debug_chromadb service)) \<longrightarrow>
        (\<exists>client cs n. service = Inr client \<and> list_collections client = Inr cs
           \<and> k < length cs \<and> c_count (cs ! k) = Inr n \<and> 0 < n))"
  by (auto simp: Call_in_events Get_in_run SampleHeader_in_block)

theorem no_sample_when_count_zero_witness:
  "c_count ([coll_docs, coll_broken, coll_empty] ! 2) = Inr 0
   \<and> (\<forall>l inc. Call (Get 2 l inc) \<notin> set (events (debug_chromadb example_service)))
   \<and> Print SampleHeader \<notin> set (collection_block 2 coll_empty)
   \<and> Call (Get 0 3 [''metadatas'', ''documents'']) \<in> set (events (debug_chromadb example_service))
   \<and> c_count ([coll_docs, coll_broken, coll_empty] ! 0) = Inr 4"
  using no_sample_when_count_zero
          [of example_service example_client "[coll_docs, coll_broken, coll_empty]" 2 3 "[]"]
        no_sample_when_count_zero
          [of example_service example_client "[coll_docs, coll_broken, coll_empty]" 0 3
              "[''metadatas'', ''documents'']"]
  by (simp add: example_defs debug_chromadb_def try_body_def collection_block_def
      collection_details_def preview_metadata_def py_index_def preview_def events_def status_def)

section \<open>At most three previews\<close>

text \<open>
  C9. The block of a collection has at most 3 previews, whatever \<^verbatim>\<open>get\<close> returns; a
  \<^verbatim>\<open>get\<close> call in the block asks for limit 3; and the block is the same as if \<^verbatim>\<open>get\<close>
  had returned only the first 3 documents of its list.
\<close>

theorem at_most_three_previews:
  "length (previews (collection_block k c)) \<le> 3
   \<and> (Call (Get j l inc) \<in> set (collection_block k c) \<longrightarrow> l = 3)
   \<and> (c_get c = Inr s \<and> documents s = Some docs \<longrightarrow>
        collection_block k (c\<lparr>c_get := Inr (s\<lparr>documents := Some (take 3 docs)\<rparr>)\<rparr>)
        = collection_block k c)"
  by (simp add: length_previews_block collection_block_take3 Call_in_events Get_in_block)

theorem at_most_three_previews_witness:
  "length (previews (collection_block 0 coll_docs)) = 3
   \<and> Call (Get 0 3 [''metadatas'', ''documents'']) \<in> set (collection_block 0 coll_docs)
   \<and> collection_block 0
        (coll_docs\<lparr>c_get := Inr \<lparr>documents = Some [Some (replicate 101 97), Some (py_lit ''short''),
                                                     Some (py_lit ''third'')],
                                   metadatas = Some [10]\<rparr>\<rparr>)
      = collection_block 0 coll_docs"
  using at_most_three_previews
          [of 0 coll_docs 0 3 "[''metadatas'', ''documents'']"
              "\<lparr>documents = Some [Some (replicate 101 97), Some (py_lit ''short''),
                                  Some (py_lit ''third''), Some (py_lit ''fourth'')],
                metadatas = Some [10]\<rparr>"
              "[Some (replicate 101 97), Some (py_lit ''short''),
                Some (py_lit ''third''), Some (py_lit ''fourth'')]"]
  by (simp add: example_defs debug_chromadb_def try_body_def collection_block_def
      collection_details_def preview_metadata_def py_index_def preview_def events_def status_def)

section \<open>Metadata under a preview\<close>

text \<open>
  C10. Reading the metadata never raises an index error: the body of the inner try
  never ends with one and no run reports one. In a sampled collection the metadata line
  of the preview numbered \<open>i\<close> is printed exactly when the list of metadata is not
  \<^verbatim>\<open>None\<close>, not empty and longer than \<open>i\<close>, and it shows the entry at \<open>i\<close>.
\<close>

theorem metadata_index_in_range:
  "snd (collection_details k c) \<noteq> Inl IndexError
   \<and> Print (DetailError IndexError) \<notin> set (events (debug_chromadb service))
   \<and> (c_count c = Inr n \<and> 0 < n \<and> c_get c = Inr s \<and> documents s = Some docs \<longrightarrow>
        fst (collection_details k c) =
          [Call (Count k), Print (DocCount n), Call (Get k 3 [''metadatas'', ''documents'']),
           Print SampleHeader]
          @ concat (map (\<lambda>(i, doc).
              Print (Preview i (preview doc))
              # (case metadatas s of
                   None \<Rightarrow> []
                 | Some ms \<Rightarrow>
                     if ms \<noteq> [] \<and> i < length ms then [Print (PreviewMeta (ms ! i))] else []))
            (enumerate 0 (map the (takeWhile (\<lambda>d. d \<noteq> None) (take 3 docs))))))"
proof (intro conjI impI)
  show "snd (collection_details k c) \<noteq> Inl IndexError"
    by (rule collection_details_no_IndexError)
  show "Print (DetailError IndexError) \<notin> set (events (debug_chromadb service))"
    by (rule no_IndexError_reported)
next
  assume "c_count c = Inr n \<and> 0 < n \<and> c_get c = Inr s \<and> documents s = Some docs"
  then show "fst (collection_details k c) =
          [Call (Count k), Print (DocCount n), Call (Get k 3 [''metadatas'', ''documents'']),
           Print SampleHeader]
          @ concat (map (\<lambda>(i, doc).
              Print (Preview i (preview doc))
              # (case metadatas s of
                   None \<Rightarrow> []
                 | Some ms \<Rightarrow>
                     if ms \<noteq> [] \<and> i < length ms then [Print (PreviewMeta (ms ! i))] else []))
            (enumerate 0 (map the (takeWhile (\<lambda>d. d \<noteq> None) (take 3 docs)))))"
    by (simp add: collection_details_cases sampled_events preview_metadata_eq)
qed

theorem metadata_index_in_range_witness:
  "snd (collection_details 0 coll_docs) \<noteq> Inl IndexError
   \<and> fst (collection_details 0 coll_docs) =
       [Call (Count 0), Print (DocCount 4), Call (Get 0 3 [''metadatas'', ''documents'']),
        Print SampleHeader,
        Print (Preview 0 (replicate 100 97 @ py_lit ''...'')), Print (PreviewMeta 10),
        Print (Preview 1 (py_lit ''short'')), Print (Preview 2 (py_lit ''third''))]"
  using metadata_index_in_range
          [of 0 coll_docs example_service 4
              "\<lparr>documents = Some [Some (replicate 101 97), Some (py_lit ''short''),
                                  Some (py_lit ''third''), Some (py_lit ''fourth'')],
                metadatas = Some [10]\<rparr>"
              "[Some (replicate 101 97), Some (py_lit ''short''),
                Some (py_lit ''third''), Some (py_lit ''fourth'')]"]
  by (simp add: example_defs debug_chromadb_def try_body_def collection_block_def
      collection_details_def preview_metadata_def py_index_def preview_def py_lit_def events_def status_def)

end
